theory Spec2Isabelle
  imports Main
begin

section \<open>Data model\<close>

text \<open>
  The objects of \<^verbatim>\<open>nornir/core/__init__.py\<close> live in an explicit store: a session
  (\<^verbatim>\<open>Nornir\<close>), its shared state (\<^verbatim>\<open>Data\<close>) and its inventory are Python objects that
  several sessions may reference at once, so each kind of object has its own list of cells
  and a reference is an index into that list. A new object is appended, so its address is
  the length of the list before the allocation.
\<close>

text \<open>
  Modelled from the spec: the \<^verbatim>\<open>Host\<close> class (Target) is not part of the sources. A target
  has a name (its unique key), group memberships and data attributes. Its open-connections
  table is mutable and shared by every inventory that lists the target, so it is kept in the
  store, under the target's name.
\<close>

record Host =
  name :: string
  groups :: "string list"
  attrs :: "(string \<times> string) list"

text \<open>
  \<^verbatim>\<open>class Data\<close>: \<^verbatim>\<open>failed_hosts\<close> is a Python set of host names, and
  \<^verbatim>\<open>available_connections\<close> the registry of connection plugins (their names; the plugin
  classes are opaque). \<^verbatim>\<open>dry_run\<close> is the attribute that \<^verbatim>\<open>Nornir.__init__\<close> attaches.
\<close>

record Data =
  failed_hosts :: "string set"
  available_connections :: "string list"
  dry_run :: bool

text \<open>
  Modelled from the spec: the \<^verbatim>\<open>Config\<close> class is not part of the sources. The session
  reads its parallelism default and its raise-on-error default; the logging options are
  outside the dispatch engine.
\<close>

record Config =
  num_workers :: int
  raise_on_error :: bool

text \<open>
  Modelled from the spec: the \<^verbatim>\<open>Inventory\<close> class is not part of the sources. It exposes
  \<^verbatim>\<open>hosts\<close>, an ordered mapping from target name to target (a Python dict, here an
  association list in iteration order), and carries the back-reference \<^verbatim>\<open>nornir\<close> that
  \<^verbatim>\<open>Nornir.__init__\<close> assigns.
\<close>

record Inventory =
  hosts :: "(string \<times> Host) list"
  nornir :: "nat option"

text \<open>
  \<^verbatim>\<open>class Nornir\<close>: the instance attributes set by \<^verbatim>\<open>__init__\<close>. The logger is an
  opaque handle, represented by its name.
\<close>

record Nornir =
  logger :: string
  data :: nat
  inventory :: nat
  config :: Config

record heap =
  datas :: "Data list"
  inventories :: "Inventory list"
  nornirs :: "Nornir list"
  connections :: "string \<Rightarrow> string list"

text \<open>
  A session reference is usable when it and the two references it holds point into the
  store. Python has no dangling references, so every session a program can reach is valid.
\<close>

definition valid :: "heap \<Rightarrow> nat \<Rightarrow> bool" where
  "valid h s \<longleftrightarrow>
     s < length (nornirs h) \<and>
     data (nornirs h ! s) < length (datas h) \<and>
     inventory (nornirs h ! s) < length (inventories h)"

text \<open>
  The invariant of the inventory's dict, owed by the inventory collaborator: keys are
  unique (it is a dict) and every target is stored under its own name.
\<close>

definition wf_hosts :: "(string \<times> Host) list \<Rightarrow> bool" where
  "wf_hosts items \<longleftrightarrow>
     distinct (map fst items) \<and> list_all (\<lambda>item. name (snd item) = fst item) items"

text \<open>
  What a session sees: \<^verbatim>\<open>self.inventory.hosts\<close> and \<^verbatim>\<open>self.data.failed_hosts\<close>.
\<close>

definition session_hosts :: "nat \<Rightarrow> heap \<Rightarrow> (string \<times> Host) list" where
  "session_hosts self h = hosts (inventories h ! inventory (nornirs h ! self))"

definition session_failed_hosts :: "nat \<Rightarrow> heap \<Rightarrow> string set" where
  "session_failed_hosts self h = failed_hosts (datas h ! data (nornirs h ! self))"

section \<open>Tasks, results and the scheduler\<close>

text \<open>
  Modelled from the spec: the work function contract. A work function receives an execution
  handle (the target, the session's dry-run flag, the target's own connections table) and
  either returns a value, with a changed flag, or raises. The connections table of a target
  is only ever touched by the execution unit operating on that target, so the function maps
  the target's table to its new table. Keyword arguments are part of the closure.
\<close>

datatype outcome = Returned "string option" bool | Raised string

type_synonym work = "Host \<Rightarrow> bool \<Rightarrow> string list \<Rightarrow> outcome \<times> string list"

text \<open>\<^verbatim>\<open>Task(task, nornir=self, **kwargs)\<close>: the work function bound to its session.\<close>

record Task =
  work :: work
  owner :: nat

text \<open>
  Modelled from the spec: \<^verbatim>\<open>Result\<close> is not part of the sources. It holds the target name,
  the return value, the captured exception if any and the changed flag. Nested sub-results
  play no part in the dispatch and are left out.
\<close>

record Result =
  host :: string
  result :: "string option"
  exception :: "string option"
  changed :: bool

text \<open>
  Modelled from the spec: \<^verbatim>\<open>Result.failed\<close> is true iff an exception was captured.
\<close>

definition failed :: "Result \<Rightarrow> bool" where
  "failed r \<longleftrightarrow> exception r \<noteq> None"

text \<open>
  Modelled from the spec: \<^verbatim>\<open>AggregatedResult\<close> is not part of the sources. It is an
  ordered mapping from target name to Result (a Python dict), here an association list in
  iteration order.
\<close>

type_synonym AggregatedResult = "(string \<times> Result) list"

text \<open>
  Modelled from the spec: \<^verbatim>\<open>agg[k] = v\<close> on the ordered mapping. Assigning to a key that
  is present replaces the value in place, assigning to a new key appends.
\<close>

fun setitem :: "(string \<times> 'v) list \<Rightarrow> string \<Rightarrow> 'v \<Rightarrow> (string \<times> 'v) list" where
  "setitem [] k v = [(k, v)]"
| "setitem (item # items) k v =
     (if fst item = k then (k, v) # items else item # setitem items k v)"

text \<open>
  Modelled from the spec: \<^verbatim>\<open>AggregatedResult.failed\<close> is true iff any contained Result
  is failed.
\<close>

definition agg_failed :: "AggregatedResult \<Rightarrow> bool" where
  "agg_failed agg \<longleftrightarrow> list_ex (\<lambda>item. failed (snd item)) agg"

text \<open>
  Modelled from the spec: \<^verbatim>\<open>AggregatedResult.failed_hosts\<close> is the sub-mapping of the
  failed entries.
\<close>

definition agg_failed_hosts :: "AggregatedResult \<Rightarrow> AggregatedResult" where
  "agg_failed_hosts agg = filter (\<lambda>item. failed (snd item)) agg"

text \<open>
  Modelled from the spec: the aggregate execution error (\<^verbatim>\<open>NornirExecutionError\<close> in the
  docstring of \<^verbatim>\<open>run\<close>) carries the whole AggregatedResult.
\<close>

datatype error = NornirExecutionError AggregatedResult

text \<open>
  Modelled from the spec: \<^verbatim>\<open>AggregatedResult.raise_on_error\<close> is not part of the sources.
  It raises the aggregate execution error when any target failed, and returns otherwise.
\<close>

definition agg_raise_on_error :: "AggregatedResult \<Rightarrow> error + unit" where
  "agg_raise_on_error agg = (if agg_failed agg then Inl (NornirExecutionError agg) else Inr ())"

text \<open>
  \<^verbatim>\<open>TaskScheduler\<close> is not part of the sources, so \<^verbatim>\<open>run\<close> takes its two entry points as
  a parameter. A scheduler may read the whole store; what it writes are the connections
  tables of the targets, and what it hands back is the AggregatedResult.
\<close>

record TaskScheduler =
  run_serial :: "Task \<Rightarrow> Host list \<Rightarrow> heap \<Rightarrow> AggregatedResult \<times> (string \<Rightarrow> string list)"
  run_parallel :: "Task \<Rightarrow> Host list \<Rightarrow> int \<Rightarrow> heap \<Rightarrow> AggregatedResult \<times> (string \<Rightarrow> string list)"

section \<open>Data: explicit recovery\<close>

text \<open>\<^verbatim>\<open>Data.recover_host\<close>: \<^verbatim>\<open>self.failed_hosts.discard(host)\<close>.\<close>

definition recover_host :: "nat \<Rightarrow> string \<Rightarrow> heap \<Rightarrow> heap" where
  "recover_host d hostname h =
     h\<lparr>datas := (datas h)[d := (datas h ! d)\<lparr>failed_hosts := failed_hosts (datas h ! d) - {hostname}\<rparr>]\<rparr>"

text \<open>\<^verbatim>\<open>Data.reset_failed_hosts\<close>: \<^verbatim>\<open>self.failed_hosts = set()\<close>.\<close>

definition reset_failed_hosts :: "nat \<Rightarrow> heap \<Rightarrow> heap" where
  "reset_failed_hosts d h = h\<lparr>datas := (datas h)[d := (datas h ! d)\<lparr>failed_hosts := {}\<rparr>]\<rparr>"

section \<open>Nornir.run\<close>

text \<open>
  Line 183, \<^verbatim>\<open>num_workers = num_workers or self.config.num_workers\<close>: Python's \<^verbatim>\<open>or\<close>
  takes the right operand when the left one is falsy, which \<^verbatim>\<open>None\<close> and \<^verbatim>\<open>0\<close> both
  are.
\<close>

definition effective_num_workers :: "int option \<Rightarrow> Config \<Rightarrow> int" where
  "effective_num_workers num_workers_opt cfg =
     (case num_workers_opt of
        None \<Rightarrow> num_workers cfg
      | Some n \<Rightarrow> if n = 0 then num_workers cfg else n)"

text \<open>
  Lines 185 to 193: the two loops over \<^verbatim>\<open>self.inventory.hosts.items()\<close>, each appending
  to \<^verbatim>\<open>run_on\<close>.
\<close>

primrec good_hosts :: "(string \<times> Host) list \<Rightarrow> string set \<Rightarrow> Host list" where
  "good_hosts [] fs = []"
| "good_hosts (item # items) fs =
     (if fst item \<notin> fs then snd item # good_hosts items fs else good_hosts items fs)"

primrec bad_hosts :: "(string \<times> Host) list \<Rightarrow> string set \<Rightarrow> Host list" where
  "bad_hosts [] fs = []"
| "bad_hosts (item # items) fs =
     (if fst item \<in> fs then snd item # bad_hosts items fs else bad_hosts items fs)"

definition run_on :: "bool \<Rightarrow> bool \<Rightarrow> (string \<times> Host) list \<Rightarrow> string set \<Rightarrow> Host list" where
  "run_on on_good on_failed items fs =
     (if on_good then good_hosts items fs else []) @
     (if on_failed then bad_hosts items fs else [])"

text \<open>
  Lines 209 to 211:
  \<^verbatim>\<open>raise_on_error if raise_on_error is not None else self.config.raise_on_error\<close>.
\<close>

definition effective_raise_on_error :: "bool option \<Rightarrow> Config \<Rightarrow> bool" where
  "effective_raise_on_error raise_on_error_opt cfg =
     (case raise_on_error_opt of None \<Rightarrow> raise_on_error cfg | Some b \<Rightarrow> b)"

text \<open>Lines 202 to 207: the task is bound and handed to the scheduler.\<close>

definition dispatch ::
  "TaskScheduler \<Rightarrow> Task \<Rightarrow> Host list \<Rightarrow> int \<Rightarrow> heap \<Rightarrow> AggregatedResult \<times> (string \<Rightarrow> string list)"
where
  "dispatch scheduler t targets n h =
     (if n = 1 then run_serial scheduler t targets h
      else run_parallel scheduler t targets n h)"

text \<open>
  The working target list and the scheduler's answer of a call, as \<^verbatim>\<open>run\<close> computes
  them.
\<close>

definition session_run_on :: "nat \<Rightarrow> bool \<Rightarrow> bool \<Rightarrow> heap \<Rightarrow> Host list" where
  "session_run_on self on_good on_failed h =
     run_on on_good on_failed (session_hosts self h) (session_failed_hosts self h)"

definition scheduled ::
  "TaskScheduler \<Rightarrow> nat \<Rightarrow> work \<Rightarrow> int option \<Rightarrow> bool \<Rightarrow> bool \<Rightarrow> heap
     \<Rightarrow> AggregatedResult \<times> (string \<Rightarrow> string list)"
where
  "scheduled scheduler self task num_workers_opt on_good on_failed h =
     dispatch scheduler \<lparr>work = task, owner = self\<rparr>
       (session_run_on self on_good on_failed h)
       (effective_num_workers num_workers_opt (config (nornirs h ! self))) h"

text \<open>
  \<^verbatim>\<open>Nornir.run\<close>. The logging calls have no effect on the store. With the effective
  raise-on-error policy set, \<^verbatim>\<open>result.raise_on_error()\<close> decides between raising and
  returning; otherwise the names of the failed entries are added to the shared failed set.
\<close>

definition run ::
  "TaskScheduler \<Rightarrow> nat \<Rightarrow> work \<Rightarrow> int option \<Rightarrow> bool option \<Rightarrow> bool \<Rightarrow> bool \<Rightarrow> heap
     \<Rightarrow> (error + AggregatedResult) \<times> heap"
where
  "run scheduler self task num_workers_opt raise_on_error_opt on_good on_failed h =
     (let me = nornirs h ! self;
          (res, conns) = scheduled scheduler self task num_workers_opt on_good on_failed h;
          h1 = h\<lparr>connections := conns\<rparr>
      in if effective_raise_on_error raise_on_error_opt (config me)
         then (case agg_raise_on_error res of
                 Inl e \<Rightarrow> (Inl e, h1)
               | Inr u \<Rightarrow> (Inr res, h1))
         else (Inr res,
               h1\<lparr>datas := (datas h1)[data me := (datas h1 ! data me)
                    \<lparr>failed_hosts := failed_hosts (datas h1 ! data me)
                                        \<union> set (map fst (agg_failed_hosts res))\<rparr>]\<rparr>))"

section \<open>The scheduler and the connection tables, from the spec\<close>

text \<open>
  Modelled from the spec: the per-target execution of \<^verbatim>\<open>Task\<close> is not part of the
  sources. On normal return the value and the changed flag are wrapped into a Result; on a
  raised exception the exception is captured and the Result is failed (its result then
  describes the exception, as the tests of the repository read it).
\<close>

definition make_result :: "string \<Rightarrow> outcome \<Rightarrow> Result" where
  "make_result n out =
     (case out of
        Returned v c \<Rightarrow> \<lparr>host = n, result = v, exception = None, changed = c\<rparr>
      | Raised e \<Rightarrow> \<lparr>host = n, result = Some e, exception = Some e, changed = False\<rparr>)"

text \<open>
  Modelled from the spec: the execution units of the scheduler are not part of the sources.
  The bound work function is executed once per target, in the order of the list; each unit
  reads and writes the connections table of its own target, and its Result is stored under
  the name of the target.
\<close>

fun execute ::
  "Task \<Rightarrow> bool \<Rightarrow> Host list \<Rightarrow> AggregatedResult \<Rightarrow> (string \<Rightarrow> string list)
     \<Rightarrow> AggregatedResult \<times> (string \<Rightarrow> string list)"
where
  "execute t dry [] agg conns = (agg, conns)"
| "execute t dry (target # targets) agg conns =
     (let (out, table) = work t target dry (conns (name target))
      in execute t dry targets
           (setitem agg (name target) (make_result (name target) out))
           (conns(name target := table)))"

text \<open>
  Modelled from the spec: \<^verbatim>\<open>TaskScheduler.run_serial\<close> is not part of the sources. It
  iterates the targets in order, executes the work function once per target, captures the
  result or the exception of each and assembles the AggregatedResult in that order.
\<close>

definition serial_execution ::
  "Task \<Rightarrow> Host list \<Rightarrow> heap \<Rightarrow> AggregatedResult \<times> (string \<Rightarrow> string list)"
where
  "serial_execution t targets h =
     execute t (dry_run (datas h ! data (nornirs h ! owner t))) targets [] (connections h)"

text \<open>
  Modelled from the spec: \<^verbatim>\<open>TaskScheduler.run_parallel\<close> is not part of the sources. The
  pool, bounded by the worker count, runs one execution unit per target; a unit touches the
  connections table of its own target only, a failure of one unit is captured in its Result,
  and the AggregatedResult is assembled after the join in submission order. The interleaving
  of the units is therefore not observable, and the outcome is that of running them in
  submission order, whatever the bound.
\<close>

definition pooled_execution ::
  "Task \<Rightarrow> Host list \<Rightarrow> int \<Rightarrow> heap \<Rightarrow> AggregatedResult \<times> (string \<Rightarrow> string list)"
where
  "pooled_execution t targets n h =
     execute t (dry_run (datas h ! data (nornirs h ! owner t))) targets [] (connections h)"

text \<open>
  Modelled from the spec: the scheduler that \<^verbatim>\<open>run\<close> constructs, with the two entry points
  above.
\<close>

definition spec_scheduler :: TaskScheduler where
  "spec_scheduler = \<lparr>run_serial = serial_execution, run_parallel = pooled_execution\<rparr>"



section \<open>Closing connections and the scoped session\<close>





text \<open>
  A sequence of \<^verbatim>\<open>run\<close> calls, each on a session of its own choice. A call that raises
  ends the sequence, as the exception leaves the block.
\<close>

record call =
  call_session :: nat
  call_task :: work
  call_workers :: "int option"
  call_raising :: "bool option"
  call_good :: bool
  call_bad :: bool


text \<open>
  The same sequence for a caller that handles what a call raises and goes on with the next
  call.
\<close>

fun run_each :: "TaskScheduler \<Rightarrow> call list \<Rightarrow> heap \<Rightarrow> heap" where
  "run_each scheduler [] h = h"
| "run_each scheduler (c # cs) h =
     run_each scheduler cs
       (snd (run scheduler (call_session c) (call_task c) (call_workers c) (call_raising c)
               (call_good c) (call_bad c) h))"


section \<open>Construction and filter\<close>

text \<open>
  \<^verbatim>\<open>Data()\<close>: an empty failed set and the registry of the \<^verbatim>\<open>connections\<close> module, which
  is not part of the sources and is a parameter here. The object has no \<^verbatim>\<open>dry_run\<close>
  attribute until line 75 assigns it, which is before any read; the field starts as
  \<^verbatim>\<open>False\<close>.
\<close>

definition new_data :: "string list \<Rightarrow> Data" where
  "new_data registry = \<lparr>failed_hosts = {}, available_connections = registry, dry_run = False\<rparr>"

text \<open>
  \<^verbatim>\<open>Nornir.__init__\<close>, lines 70 to 85. The objects passed in are truthy, so
  \<^verbatim>\<open>logger or ...\<close>, \<^verbatim>\<open>data or Data()\<close> and \<^verbatim>\<open>config or Config()\<close> take the argument
  when one is given. \<^verbatim>\<open>Config()\<close> is a parameter (\<open>default_config\<close>); \<open>config_file\<close> is
  the configuration that loading the file yields, when a file is named. The logging setup
  of line 82 does not touch the store.
\<close>

definition init ::
  "Config \<Rightarrow> string list \<Rightarrow> nat \<Rightarrow> bool \<Rightarrow> Config option \<Rightarrow> Config option
     \<Rightarrow> string list option \<Rightarrow> string option \<Rightarrow> nat option \<Rightarrow> heap \<Rightarrow> nat \<times> heap"
where
  "init default_config registry ivt dry config_arg config_file connections_arg logger_arg
        data_arg h =
     (let self = length (nornirs h);
          lg = (case logger_arg of None \<Rightarrow> ''nornir'' | Some l \<Rightarrow> l);
          (d, h1) = (case data_arg of
                       None \<Rightarrow> (length (datas h), h\<lparr>datas := datas h @ [new_data registry]\<rparr>)
                     | Some d \<Rightarrow> (d, h));
          h2 = h1\<lparr>inventories :=
                    (inventories h1)[ivt := (inventories h1 ! ivt)\<lparr>nornir := Some self\<rparr>]\<rparr>;
          h3 = h2\<lparr>datas := (datas h2)[d := (datas h2 ! d)\<lparr>dry_run := dry\<rparr>]\<rparr>;
          cfg = (case config_file of
                   Some c \<Rightarrow> c
                 | None \<Rightarrow> (case config_arg of None \<Rightarrow> default_config | Some c \<Rightarrow> c));
          h4 = (case connections_arg of
                  None \<Rightarrow> h3
                | Some a \<Rightarrow>
                    h3\<lparr>datas := (datas h3)[d := (datas h3 ! d)\<lparr>available_connections := a\<rparr>]\<rparr>)
      in (self,
          h4\<lparr>nornirs := nornirs h4 @ [\<lparr>logger = lg, data = d, inventory = ivt, config = cfg\<rparr>]\<rparr>))"

text \<open>
  Modelled from the spec: the criteria of \<^verbatim>\<open>filter\<close> are exact attribute equality, group
  membership, or a predicate on the target.
\<close>

datatype criterion = Attribute string string | Group string | Func "Host \<Rightarrow> bool"

text \<open>
  Modelled from the spec: attribute lookup on a target, which the \<^verbatim>\<open>Host\<close> class would
  provide. The name is an attribute like the data attributes (the tests filter on it).
\<close>

definition attribute :: "Host \<Rightarrow> string \<Rightarrow> string option" where
  "attribute target k = (if k = ''name'' then Some (name target) else map_of (attrs target) k)"

text \<open>Modelled from the spec: when a target meets one criterion.\<close>

fun matches :: "Host \<Rightarrow> criterion \<Rightarrow> bool" where
  "matches target (Attribute k v) \<longleftrightarrow> attribute target k = Some v"
| "matches target (Group g) \<longleftrightarrow> g \<in> set (groups target)"
| "matches target (Func f) \<longleftrightarrow> f target"

text \<open>
  Modelled from the spec: \<^verbatim>\<open>Inventory.filter\<close> is not part of the sources. It produces
  a new inventory whose ordered mapping holds the targets that match all the criteria, in
  their former order, and leaves the inventory it is called on as it is. The spec does not
  say which back-reference the new inventory carries; it starts with the one of the
  inventory it was made from.
\<close>

definition inventory_filter :: "nat \<Rightarrow> criterion list \<Rightarrow> heap \<Rightarrow> nat \<times> heap" where
  "inventory_filter ivt criteria h =
     (length (inventories h),
      h\<lparr>inventories := inventories h @
           [\<lparr>hosts = filter (\<lambda>item. list_all (matches (snd item)) criteria)
                       (hosts (inventories h ! ivt)),
             nornir = nornir (inventories h ! ivt)\<rparr>]\<rparr>)"

text \<open>
  \<^verbatim>\<open>Nornir.filter\<close>: \<^verbatim>\<open>Nornir(dry_run=self.dry_run, **self.__dict__)\<close> passes the
  attributes \<^verbatim>\<open>logger\<close>, \<^verbatim>\<open>data\<close>, \<^verbatim>\<open>inventory\<close> and \<^verbatim>\<open>config\<close> of \<^verbatim>\<open>self\<close>; then
  the inventory of the new session is replaced by the filtered one.
\<close>

definition filter_nornir ::
  "Config \<Rightarrow> string list \<Rightarrow> nat \<Rightarrow> criterion list \<Rightarrow> heap \<Rightarrow> nat \<times> heap"
where
  "filter_nornir default_config registry self criteria h =
     (let me = nornirs h ! self;
          (b, h1) = init default_config registry (inventory me)
                      (dry_run (datas h ! data me)) (Some (config me)) None None
                      (Some (logger me)) (Some (data me)) h;
          (ivt, h2) = inventory_filter (inventory (nornirs h1 ! self)) criteria h1
      in (b, h2\<lparr>nornirs := (nornirs h2)[b := (nornirs h2 ! b)\<lparr>inventory := ivt\<rparr>]\<rparr>))"

text \<open>A sequence of \<^verbatim>\<open>filter\<close> calls, each on a session of its own choice.\<close>

fun filter_calls ::
  "Config \<Rightarrow> string list \<Rightarrow> (nat \<times> criterion list) list \<Rightarrow> heap \<Rightarrow> heap"
where
  "filter_calls default_config registry [] h = h"
| "filter_calls default_config registry (c # cs) h =
     filter_calls default_config registry cs
       (snd (filter_nornir default_config registry (fst c) (snd c) h))"

section \<open>A worked session\<close>

text \<open>
  The scenario of the spec: a session over the targets A, B and C, and a work function that
  fails only for B. Here the work function also opens a connection on the targets it
  succeeds on.
\<close>

definition device :: "string \<Rightarrow> Host" where
  "device n = \<lparr>name = n, groups = [], attrs = []\<rparr>"

definition abc_config :: Config where
  "abc_config = \<lparr>num_workers = 20, raise_on_error = False\<rparr>"

definition abc :: heap where
  "abc = \<lparr>datas = [\<lparr>failed_hosts = {}, available_connections = [], dry_run = False\<rparr>],
          inventories = [\<lparr>hosts = [(''A'', device ''A''), (''B'', device ''B''),
                                    (''C'', device ''C'')],
                          nornir = Some 0\<rparr>],
          nornirs = [\<lparr>logger = ''nornir'', data = 0, inventory = 0, config = abc_config\<rparr>],
          connections = (\<lambda>n. [])\<rparr>"

definition fails_on_B :: work where
  "fails_on_B t dry table =
     (if name t = ''B'' then (Raised ''KeyError'', table)
      else (Returned (Some ''done'') False, ''ssh'' # table))"

text \<open>A work function that succeeds everywhere and leaves the connections as they are.\<close>

definition succeeds :: work where
  "succeeds t dry table = (Returned (Some ''done'') False, table)"

text \<open>The store after a first run over A, B and C that records the failure of B.\<close>

definition abc_B :: heap where
  "abc_B = snd (run spec_scheduler 0 fails_on_B None None True False abc)"

text \<open>A later call on good and failed targets alike, with a work function that succeeds.\<close>

definition retry_all :: call where
  "retry_all = \<lparr>call_session = 0, call_task = succeeds, call_workers = None,
                 call_raising = Some False, call_good = True, call_bad = True\<rparr>"

text \<open>The store after the session over A, B and C has been filtered down to B.\<close>

definition abc_filtered :: heap where
  "abc_filtered = snd (filter_nornir abc_config [] 0 [Attribute ''name'' ''B''] abc)"


section \<open>The working target list\<close>

lemma good_hosts_filter: "good_hosts items fs = map snd (filter (\<lambda>item. fst item \<notin> fs) items)"
  by (induction items) simp_all

lemma bad_hosts_filter: "bad_hosts items fs = map snd (filter (\<lambda>item. fst item \<in> fs) items)"
  by (induction items) simp_all

lemma wf_hosts_name: "wf_hosts items \<Longrightarrow> item \<in> set items \<Longrightarrow> name (snd item) = fst item"
  by (simp add: wf_hosts_def list_all_iff)

lemma wf_hosts_names: "wf_hosts items \<Longrightarrow> map (name \<circ> snd) items = map fst items"
  by (simp add: wf_hosts_def list_all_iff)

lemma names_good_hosts:
  "wf_hosts items \<Longrightarrow> map name (good_hosts items fs) = filter (\<lambda>n. n \<notin> fs) (map fst items)"
  by (induction items) (simp_all add: wf_hosts_def)

lemma names_bad_hosts:
  "wf_hosts items \<Longrightarrow> map name (bad_hosts items fs) = filter (\<lambda>n. n \<in> fs) (map fst items)"
  by (induction items) (simp_all add: wf_hosts_def)

lemma names_run_on:
  "wf_hosts items \<Longrightarrow>
   map name (run_on on_good on_failed items fs) =
     (if on_good then filter (\<lambda>n. n \<notin> fs) (map fst items) else []) @
     (if on_failed then filter (\<lambda>n. n \<in> fs) (map fst items) else [])"
  by (simp add: run_on_def names_good_hosts names_bad_hosts)

lemma distinct_names_run_on:
  assumes "wf_hosts items"
  shows "distinct (map name (run_on on_good on_failed items fs))"
proof -
  from assms have "distinct (map fst items)"
    by (simp add: wf_hosts_def)
  then show ?thesis
    by (auto simp: names_run_on [OF assms])
qed

section \<open>What a call of run changes\<close>

lemma run_nornirs: "nornirs (snd (run scheduler self task nwo roe og ob h)) = nornirs h"
  by (simp add: run_def Let_def split: prod.splits sum.splits)

lemma run_inventories: "inventories (snd (run scheduler self task nwo roe og ob h)) = inventories h"
  by (simp add: run_def Let_def split: prod.splits sum.splits)

lemma run_length_datas: "length (datas (snd (run scheduler self task nwo roe og ob h))) = length (datas h)"
  by (simp add: run_def Let_def split: prod.splits sum.splits)

lemma run_connections:
  "connections (snd (run scheduler self task nwo roe og ob h)) =
     snd (scheduled scheduler self task nwo og ob h)"
  by (simp add: run_def Let_def split: prod.splits sum.splits)

lemma run_failed_hosts_mono:
  assumes "d < length (datas h)"
  shows "failed_hosts (datas h ! d) \<subseteq>
           failed_hosts (datas (snd (run scheduler self task nwo roe og ob h)) ! d)"
proof (cases "data (nornirs h ! self) = d")
  case True
  with assms show ?thesis
    by (auto simp: run_def Let_def split: prod.splits sum.splits)
next
  case False
  then show ?thesis
    by (auto simp: run_def Let_def split: prod.splits sum.splits)
qed

lemma run_raising_datas:
  "effective_raise_on_error roe (config (nornirs h ! self)) \<Longrightarrow>
   datas (snd (run scheduler self task nwo roe og ob h)) = datas h"
  by (simp add: run_def Let_def split: prod.splits sum.splits)

lemma run_not_raising:
  assumes "\<not> effective_raise_on_error roe (config (nornirs h ! self))"
  shows "fst (run scheduler self task nwo roe og ob h) =
           Inr (fst (scheduled scheduler self task nwo og ob h))"
  using assms by (simp add: run_def Let_def split: prod.splits)

lemma run_not_raising_failed_hosts:
  assumes "\<not> effective_raise_on_error roe (config (nornirs h ! self))"
    and "data (nornirs h ! self) < length (datas h)"
  shows "failed_hosts (datas (snd (run scheduler self task nwo roe og ob h)) ! data (nornirs h ! self)) =
           failed_hosts (datas h ! data (nornirs h ! self)) \<union>
           fst ` set (agg_failed_hosts (fst (scheduled scheduler self task nwo og ob h)))"
  using assms by (simp add: run_def Let_def split: prod.splits)

lemma run_raising:
  assumes "effective_raise_on_error roe (config (nornirs h ! self))"
  shows "fst (run scheduler self task nwo roe og ob h) =
           (if agg_failed (fst (scheduled scheduler self task nwo og ob h))
            then Inl (NornirExecutionError (fst (scheduled scheduler self task nwo og ob h)))
            else Inr (fst (scheduled scheduler self task nwo og ob h)))"
  using assms by (simp add: run_def Let_def agg_raise_on_error_def split: prod.splits)

lemma set_good_hosts: "set (good_hosts items fs) = snd ` {item \<in> set items. fst item \<notin> fs}"
  by (auto simp: good_hosts_filter)

lemma set_bad_hosts: "set (bad_hosts items fs) = snd ` {item \<in> set items. fst item \<in> fs}"
  by (auto simp: bad_hosts_filter)

lemma set_run_on:
  "set (run_on on_good on_failed items fs) =
     (if on_good then snd ` {item \<in> set items. fst item \<notin> fs} else {}) \<union>
     (if on_failed then snd ` {item \<in> set items. fst item \<in> fs} else {})"
  by (simp add: run_on_def set_good_hosts set_bad_hosts)



section \<open>The scheduler of the spec\<close>

lemma setitem_new: "k \<notin> fst ` set items \<Longrightarrow> setitem items k v = items @ [(k, v)]"
  by (induction items) auto

lemma execute_results:
  assumes "distinct (map name targets)"
    and "name ` set targets \<inter> fst ` set agg = {}"
  shows "fst (execute t dry targets agg conns) =
           agg @ map (\<lambda>x. (name x, make_result (name x) (fst (work t x dry (conns (name x))))))
                  targets"
  using assms
proof (induction targets arbitrary: agg conns)
  case Nil
  then show ?case by simp
next
  case (Cons x xs)
  obtain out table where w: "work t x dry (conns (name x)) = (out, table)"
    by (cases "work t x dry (conns (name x))")
  let ?agg = "agg @ [(name x, make_result (name x) out)]"
  let ?conns = "conns(name x := table)"
  from Cons.prems have new: "name x \<notin> fst ` set agg"
    by auto
  from Cons.prems have d: "distinct (map name xs)" and nx: "name x \<notin> name ` set xs"
    by auto
  from Cons.prems nx have disj: "name ` set xs \<inter> fst ` set ?agg = {}"
    by auto
  have same: "map (\<lambda>y. (name y, make_result (name y) (fst (work t y dry (?conns (name y)))))) xs =
              map (\<lambda>y. (name y, make_result (name y) (fst (work t y dry (conns (name y)))))) xs"
  proof (rule map_cong)
    fix y assume "y \<in> set xs"
    with nx have "name y \<noteq> name x"
      by (metis imageI)
    then show "(name y, make_result (name y) (fst (work t y dry (?conns (name y))))) =
               (name y, make_result (name y) (fst (work t y dry (conns (name y)))))"
      by simp
  qed simp
  have "fst (execute t dry (x # xs) agg conns) = fst (execute t dry xs ?agg ?conns)"
    by (simp add: w setitem_new [OF new])
  also have "\<dots> = ?agg @ map (\<lambda>y. (name y, make_result (name y) (fst (work t y dry (?conns (name y)))))) xs"
    using d disj by (rule Cons.IH)
  also have "\<dots> = ?agg @ map (\<lambda>y. (name y, make_result (name y) (fst (work t y dry (conns (name y)))))) xs"
    by (simp only: same)
  also have "\<dots> = agg @ map (\<lambda>y. (name y, make_result (name y) (fst (work t y dry (conns (name y))))))
                         (x # xs)"
    by (simp add: w)
  finally show ?case .
qed

lemma execute_keys:
  assumes "distinct (map name targets)"
  shows "map fst (fst (execute t dry targets [] conns)) = map name targets"
  using execute_results [OF assms, of "[]"] by (simp add: comp_def)


lemma spec_scheduler_dispatch:
  "dispatch spec_scheduler t targets n h =
     execute t (dry_run (datas h ! data (nornirs h ! owner t))) targets [] (connections h)"
  by (simp add: dispatch_def spec_scheduler_def serial_execution_def pooled_execution_def)

lemma spec_scheduled:
  "scheduled spec_scheduler self task nwo og ob h =
     execute \<lparr>work = task, owner = self\<rparr> (dry_run (datas h ! data (nornirs h ! self)))
       (session_run_on self og ob h) [] (connections h)"
  by (simp add: scheduled_def spec_scheduler_dispatch)

section \<open>The worked session, evaluated\<close>

lemma abc_valid: "valid abc 0"
  by (simp add: valid_def abc_def)

lemma abc_wf: "wf_hosts (session_hosts 0 abc)"
  by (simp add: wf_hosts_def session_hosts_def abc_def device_def)

lemma abc_run_on: "session_run_on 0 True False abc = [device ''A'', device ''B'', device ''C'']"
  by (simp add: session_run_on_def session_hosts_def session_failed_hosts_def run_on_def abc_def)

lemma abc_scheduled:
  "fst (scheduled spec_scheduler 0 fails_on_B nwo True False abc) =
     [(''A'', \<lparr>host = ''A'', result = Some ''done'', exception = None, changed = False\<rparr>),
      (''B'', \<lparr>host = ''B'', result = Some ''KeyError'', exception = Some ''KeyError'',
               changed = False\<rparr>),
      (''C'', \<lparr>host = ''C'', result = Some ''done'', exception = None, changed = False\<rparr>)]"
  by (simp add: spec_scheduled abc_run_on device_def fails_on_B_def make_result_def)

lemma abc_B_nornirs: "nornirs abc_B = nornirs abc"
  by (simp add: abc_B_def run_nornirs)

lemma abc_B_inventories: "inventories abc_B = inventories abc"
  by (simp add: abc_B_def run_inventories)

lemma abc_not_raising: "\<not> effective_raise_on_error None (config (nornirs abc ! 0))"
  by (simp add: effective_raise_on_error_def abc_def abc_config_def)

lemma abc_B_failed_hosts: "session_failed_hosts 0 abc_B = {''B''}"
proof -
  have "data (nornirs abc ! 0) < length (datas abc)"
    by (simp add: abc_def)
  with abc_not_raising
  have "failed_hosts (datas abc_B ! data (nornirs abc ! 0)) =
          failed_hosts (datas abc ! data (nornirs abc ! 0)) \<union>
          fst ` set (agg_failed_hosts (fst (scheduled spec_scheduler 0 fails_on_B None True False abc)))"
    unfolding abc_B_def by (rule run_not_raising_failed_hosts)
  also have "\<dots> = {''B''}"
    by (simp add: abc_scheduled agg_failed_hosts_def failed_def) (simp add: abc_def)
  finally show ?thesis
    by (simp add: session_failed_hosts_def abc_B_nornirs)
qed

lemma abc_B_hosts:
  "session_hosts 0 abc_B = [(''A'', device ''A''), (''B'', device ''B''), (''C'', device ''C'')]"
  by (simp add: session_hosts_def abc_B_nornirs abc_B_inventories) (simp add: abc_def)

lemma abc_B_valid: "valid abc_B 0"
  unfolding valid_def abc_B_nornirs abc_B_inventories
  by (simp add: abc_B_def run_length_datas) (simp add: abc_def)

lemma abc_B_wf: "wf_hosts (session_hosts 0 abc_B)"
  by (simp add: abc_B_hosts wf_hosts_def device_def)

lemma abc_B_run_on: "session_run_on 0 True True abc_B = [device ''A'', device ''C'', device ''B'']"
  by (simp add: session_run_on_def abc_B_hosts abc_B_failed_hosts run_on_def)

section \<open>C5: the working target list\<close>

text \<open>
  Claim C5. For every run call, the working target list holds the inventory targets whose
  name is not in the failed set when \<^verbatim>\<open>on_good\<close> is set, and those whose name is in the
  failed set when \<^verbatim>\<open>on_failed\<close> is set. No target appears twice, also with both flags
  set: the two loops select disjoint parts of a dict with unique keys.
\<close>

theorem working_target_list:
  assumes "wf_hosts (session_hosts self h)"
  shows "set (session_run_on self on_good on_failed h) =
           (if on_good
            then snd ` {item \<in> set (session_hosts self h). fst item \<notin> session_failed_hosts self h}
            else {}) \<union>
           (if on_failed
            then snd ` {item \<in> set (session_hosts self h). fst item \<in> session_failed_hosts self h}
            else {}) \<and>
         distinct (map name (session_run_on self on_good on_failed h)) \<and>
         distinct (session_run_on self on_good on_failed h)"
proof -
  have names: "distinct (map name (session_run_on self on_good on_failed h))"
    unfolding session_run_on_def using assms by (rule distinct_names_run_on)
  then have "distinct (session_run_on self on_good on_failed h)"
    by (simp add: distinct_map)
  with names show ?thesis
    by (simp add: session_run_on_def set_run_on)
qed

theorem working_target_list_witness:
  "wf_hosts (session_hosts 0 abc_B) \<and>
   session_run_on 0 True True abc_B = [device ''A'', device ''C'', device ''B''] \<and>
   distinct (map name (session_run_on 0 True True abc_B)) \<and>
   distinct (session_run_on 0 True True abc_B)"
  using working_target_list [OF abc_B_wf, of True True] abc_B_wf abc_B_run_on
  by simp

section \<open>C9: a raising policy leaves the failed set alone\<close>

text \<open>
  Claim C9. When the effective raise-on-error policy of a run call is true, the call leaves
  the shared state, and so the failed set of the session, as it was: whether or not targets
  failed and the aggregate error is raised. Names are merged into the failed set on the
  other branch only.
\<close>

theorem raising_run_keeps_failed_hosts:
  assumes "effective_raise_on_error raise_on_error_opt (config (nornirs h ! self))"
  shows "datas (snd (run scheduler self task num_workers_opt raise_on_error_opt
                       on_good on_failed h)) = datas h \<and>
         session_failed_hosts self
           (snd (run scheduler self task num_workers_opt raise_on_error_opt on_good on_failed h)) =
         session_failed_hosts self h"
proof -
  from assms
  have "datas (snd (run scheduler self task num_workers_opt raise_on_error_opt
                      on_good on_failed h)) = datas h"
    by (rule run_raising_datas)
  then show ?thesis
    by (simp add: session_failed_hosts_def run_nornirs)
qed

lemma abc_raises:
  "fst (run spec_scheduler 0 fails_on_B None (Some True) True False abc) =
     Inl (NornirExecutionError (fst (scheduled spec_scheduler 0 fails_on_B None True False abc)))"
  by (simp add: run_raising effective_raise_on_error_def)
     (simp add: abc_scheduled agg_failed_def failed_def)

theorem raising_run_keeps_failed_hosts_witness:
  "effective_raise_on_error (Some True) (config (nornirs abc ! 0)) \<and>
   agg_failed (fst (scheduled spec_scheduler 0 fails_on_B None True False abc)) \<and>
   fst (run spec_scheduler 0 fails_on_B None (Some True) True False abc) =
     Inl (NornirExecutionError (fst (scheduled spec_scheduler 0 fails_on_B None True False abc))) \<and>
   session_failed_hosts 0 (snd (run spec_scheduler 0 fails_on_B None (Some True) True False abc)) = {}"
proof -
  have p: "effective_raise_on_error (Some True) (config (nornirs abc ! 0))"
    by (simp add: effective_raise_on_error_def)
  have f: "agg_failed (fst (scheduled spec_scheduler 0 fails_on_B None True False abc))"
    by (simp add: abc_scheduled agg_failed_def failed_def)
  have e: "session_failed_hosts 0 abc = {}"
    by (simp add: session_failed_hosts_def abc_def)
  from raising_run_keeps_failed_hosts [OF p, of spec_scheduler fails_on_B None True False] e
  have "session_failed_hosts 0
          (snd (run spec_scheduler 0 fails_on_B None (Some True) True False abc)) = {}"
    by simp
  with p f abc_raises show ?thesis
    by simp
qed

section \<open>C2: the failed set only grows under run\<close>

lemma run_each_length_datas: "length (datas (run_each scheduler cs h)) = length (datas h)"
  by (induction cs arbitrary: h) (simp_all add: run_length_datas)

lemma run_each_failed_hosts_mono:
  "d < length (datas h) \<Longrightarrow>
   failed_hosts (datas h ! d) \<subseteq> failed_hosts (datas (run_each scheduler cs h) ! d)"
proof (induction cs arbitrary: h)
  case Nil
  then show ?case by simp
next
  case (Cons c cs)
  let ?h = "snd (run scheduler (call_session c) (call_task c) (call_workers c) (call_raising c)
                   (call_good c) (call_bad c) h)"
  from Cons.prems have "failed_hosts (datas h ! d) \<subseteq> failed_hosts (datas ?h ! d)"
    by (rule run_failed_hosts_mono)
  moreover from Cons.prems have "d < length (datas ?h)"
    by (simp add: run_length_datas)
  then have "failed_hosts (datas ?h ! d) \<subseteq> failed_hosts (datas (run_each scheduler cs ?h) ! d)"
    by (rule Cons.IH)
  ultimately show ?case
    by auto
qed

text \<open>
  Claim C2. A target name that is in the failed set stays there through every later sequence
  of run calls, whatever the calls select, whatever their work functions do and whatever
  their raise-on-error policy is: a later successful run never removes it. It leaves the
  set when \<^verbatim>\<open>recover_host\<close> is called for it or \<^verbatim>\<open>reset_failed_hosts\<close> is called.
\<close>

theorem failed_hosts_persist:
  assumes "d < length (datas h)"
    and "hostname \<in> failed_hosts (datas h ! d)"
  shows "hostname \<in> failed_hosts (datas (run_each scheduler cs h) ! d) \<and>
         hostname \<notin> failed_hosts (datas (recover_host d hostname (run_each scheduler cs h)) ! d) \<and>
         failed_hosts (datas (reset_failed_hosts d (run_each scheduler cs h)) ! d) = {}"
proof -
  from assms(1) have len: "d < length (datas (run_each scheduler cs h))"
    by (simp add: run_each_length_datas)
  from assms have "hostname \<in> failed_hosts (datas (run_each scheduler cs h) ! d)"
    using run_each_failed_hosts_mono [of d h scheduler cs] by auto
  with len show ?thesis
    by (simp add: recover_host_def reset_failed_hosts_def)
qed

lemma abc_B_length_datas: "length (datas abc_B) = 1"
  by (simp add: abc_B_def run_length_datas) (simp add: abc_def)

lemma abc_B_retry_succeeds:
  "fst (run spec_scheduler 0 succeeds None (Some False) True True abc_B) =
     Inr [(''A'', \<lparr>host = ''A'', result = Some ''done'', exception = None, changed = False\<rparr>),
          (''C'', \<lparr>host = ''C'', result = Some ''done'', exception = None, changed = False\<rparr>),
          (''B'', \<lparr>host = ''B'', result = Some ''done'', exception = None, changed = False\<rparr>)]"
  by (simp add: run_not_raising effective_raise_on_error_def spec_scheduled abc_B_run_on)
     (simp add: device_def succeeds_def make_result_def)

theorem failed_hosts_persist_witness:
  "0 < length (datas abc_B) \<and>
   ''B'' \<in> failed_hosts (datas abc_B ! 0) \<and>
   ''B'' \<in> failed_hosts (datas (run_each spec_scheduler [retry_all] abc_B) ! 0) \<and>
   ''B'' \<notin> failed_hosts (datas (recover_host 0 ''B'' (run_each spec_scheduler [retry_all] abc_B)) ! 0)"
proof -
  have l: "0 < length (datas abc_B)"
    by (simp add: abc_B_length_datas)
  have b: "''B'' \<in> failed_hosts (datas abc_B ! 0)"
    using abc_B_failed_hosts by (simp add: session_failed_hosts_def abc_B_nornirs) (simp add: abc_def)
  from failed_hosts_persist [OF l b, of spec_scheduler "[retry_all]"] l b show ?thesis
    by simp
qed

section \<open>C3: the raise-on-error policy\<close>


lemma spec_scheduled_keys:
  assumes "wf_hosts (session_hosts self h)"
  shows "map fst (fst (scheduled spec_scheduler self task nwo og ob h)) =
           map name (session_run_on self og ob h)"
proof -
  have "distinct (map name (session_run_on self og ob h))"
    unfolding session_run_on_def using assms by (rule distinct_names_run_on)
  then show ?thesis
    by (simp add: spec_scheduled execute_keys)
qed



section \<open>C7: the worker count and the dispatch\<close>

lemma abc_num_workers: "num_workers (config (nornirs abc ! 0)) = 20"
  by (simp add: abc_def abc_config_def)

lemma abc_zero_workers: "effective_num_workers (Some 0) (config (nornirs abc ! 0)) = 20"
  by (simp add: effective_num_workers_def abc_num_workers)

text \<open>
  Claim C7, as stated, makes the effective worker count the explicit \<^verbatim>\<open>num_workers\<close>
  argument whenever one is given. An explicit \<^verbatim>\<open>0\<close> is falsy, so line 183 replaces it
  by the configured default: with the default of 20 the effective count is 20, and the
  call is dispatched to the pool with 20 workers.
\<close>

theorem explicit_zero_workers_counterexample:
  "effective_num_workers (Some 0) (config (nornirs abc ! 0)) = 20 \<and>
   effective_num_workers (Some 0) (config (nornirs abc ! 0)) \<noteq> 0 \<and>
   scheduled spec_scheduler 0 fails_on_B (Some 0) True False abc =
     run_parallel spec_scheduler \<lparr>work = fails_on_B, owner = 0\<rparr>
       (session_run_on 0 True False abc) 20 abc"
  by (simp add: abc_zero_workers scheduled_def dispatch_def)

text \<open>
  Claim C7, amended. The effective worker count of a run call is the explicit
  \<^verbatim>\<open>num_workers\<close> argument when one is given and is not 0, and the configured default
  when none is given or 0 is given. The call goes to the serial entry point of the scheduler
  exactly when the effective count is 1, and otherwise to the pooled entry point, which
  receives the effective count as its bound. What run returns or raises, and the
  connections it leaves, are those of that scheduler call.
\<close>

theorem run_worker_count:
  assumes "cfg = config (nornirs h ! self)"
    and "n = effective_num_workers num_workers_opt cfg"
    and "t = \<lparr>work = task, owner = self\<rparr>"
    and "targets = session_run_on self on_good on_failed h"
    and "out = run scheduler self task num_workers_opt raise_on_error_opt on_good on_failed h"
  shows "(num_workers_opt = None \<or> num_workers_opt = Some 0 \<longrightarrow> n = num_workers cfg) \<and>
         (\<forall>k. num_workers_opt = Some k \<and> k \<noteq> 0 \<longrightarrow> n = k) \<and>
         (n = 1 \<longrightarrow>
            scheduled scheduler self task num_workers_opt on_good on_failed h =
              run_serial scheduler t targets h) \<and>
         (n \<noteq> 1 \<longrightarrow>
            scheduled scheduler self task num_workers_opt on_good on_failed h =
              run_parallel scheduler t targets n h) \<and>
         connections (snd out) =
           snd (scheduled scheduler self task num_workers_opt on_good on_failed h) \<and>
         (fst out = Inr (fst (scheduled scheduler self task num_workers_opt on_good on_failed h)) \<or>
          fst out = Inl (NornirExecutionError
                           (fst (scheduled scheduler self task num_workers_opt on_good on_failed h))))"
proof -
  have count: "(num_workers_opt = None \<or> num_workers_opt = Some 0 \<longrightarrow> n = num_workers cfg) \<and>
               (\<forall>k. num_workers_opt = Some k \<and> k \<noteq> 0 \<longrightarrow> n = k)"
    by (auto simp: assms(2) effective_num_workers_def)
  have serial: "scheduled scheduler self task num_workers_opt on_good on_failed h =
                  run_serial scheduler t targets h" if "n = 1"
    using that by (simp add: assms scheduled_def dispatch_def)
  have pooled: "scheduled scheduler self task num_workers_opt on_good on_failed h =
                  run_parallel scheduler t targets n h" if "n \<noteq> 1"
    using that by (simp add: assms scheduled_def dispatch_def)
  have conns: "connections (snd out) =
                 snd (scheduled scheduler self task num_workers_opt on_good on_failed h)"
    by (simp add: assms(5) run_connections)
  have answer:
    "fst out = Inr (fst (scheduled scheduler self task num_workers_opt on_good on_failed h)) \<or>
     fst out = Inl (NornirExecutionError
                      (fst (scheduled scheduler self task num_workers_opt on_good on_failed h)))"
  proof (cases "effective_raise_on_error raise_on_error_opt (config (nornirs h ! self))")
    case True
    then show ?thesis
      by (simp add: assms(5) run_raising)
  next
    case False
    then show ?thesis
      by (simp add: assms(5) run_not_raising)
  qed
  from count serial pooled conns answer show ?thesis
    by blast
qed

theorem run_worker_count_witness:
  "effective_num_workers (Some 1) (config (nornirs abc ! 0)) = 1 \<and>
   scheduled spec_scheduler 0 fails_on_B (Some 1) True False abc =
     run_serial spec_scheduler \<lparr>work = fails_on_B, owner = 0\<rparr>
       (session_run_on 0 True False abc) abc \<and>
   effective_num_workers None (config (nornirs abc ! 0)) = 20 \<and>
   scheduled spec_scheduler 0 fails_on_B None True False abc =
     run_parallel spec_scheduler \<lparr>work = fails_on_B, owner = 0\<rparr>
       (session_run_on 0 True False abc) 20 abc"
proof -
  have 1: "effective_num_workers (Some 1) (config (nornirs abc ! 0)) = 1"
    by (simp add: effective_num_workers_def)
  have 2: "effective_num_workers None (config (nornirs abc ! 0)) = 20"
    by (simp add: effective_num_workers_def abc_num_workers)
  from run_worker_count [where h = abc and self = 0 and num_workers_opt = "Some 1"
      and scheduler = spec_scheduler and task = fails_on_B and on_good = True and on_failed = False
      and raise_on_error_opt = None, OF refl refl refl refl refl] 1
  have s: "scheduled spec_scheduler 0 fails_on_B (Some 1) True False abc =
             run_serial spec_scheduler \<lparr>work = fails_on_B, owner = 0\<rparr>
               (session_run_on 0 True False abc) abc"
    by simp
  from run_worker_count [where h = abc and self = 0 and num_workers_opt = None
      and scheduler = spec_scheduler and task = fails_on_B and on_good = True and on_failed = False
      and raise_on_error_opt = None, OF refl refl refl refl refl] 2
  have p: "scheduled spec_scheduler 0 fails_on_B None True False abc =
             run_parallel spec_scheduler \<lparr>work = fails_on_B, owner = 0\<rparr>
               (session_run_on 0 True False abc) 20 abc"
    by simp
  from 1 2 s p show ?thesis
    by simp
qed

section \<open>C1: one Result per target, in the order of the working list\<close>

lemma abc_B_retry_keys:
  "map_sum id (map fst) (fst (run spec_scheduler 0 succeeds None (Some False) True True abc_B)) =
     Inr [''A'', ''C'', ''B'']"
  by (simp add: abc_B_retry_succeeds)

text \<open>
  Claim C1, as stated, makes the order of the AggregatedResult the iteration order of the
  target collection for every setting of the flags, \<^verbatim>\<open>on_good\<close> together with
  \<^verbatim>\<open>on_failed\<close> included. In the session over A, B and C whose failed set is B, a run
  with both flags set returns the results of A, C and B in this order, while the target
  collection iterates A, B, C: the working list is built by the loop over the good targets
  followed by the loop over the failed ones.
\<close>

theorem result_order_counterexample:
  "map fst (session_hosts 0 abc_B) = [''A'', ''B'', ''C''] \<and>
   session_failed_hosts 0 abc_B = {''B''} \<and>
   map_sum id (map fst) (fst (run spec_scheduler 0 succeeds None (Some False) True True abc_B)) =
     Inr [''A'', ''C'', ''B''] \<and>
   map_sum id (map fst) (fst (run spec_scheduler 0 succeeds None (Some False) True True abc_B)) \<noteq>
     Inr (map fst (session_hosts 0 abc_B))"
  by (simp add: abc_B_retry_keys abc_B_hosts abc_B_failed_hosts)

text \<open>
  Claim C1, amended. For every run call that returns, whatever \<^verbatim>\<open>num_workers\<close> and the
  flags are, the AggregatedResult holds exactly one Result for each target of the working
  list, and its order is the order of the working list: the good targets in the iteration
  order of the target collection (when \<^verbatim>\<open>on_good\<close> is set), followed by the failed
  targets in the iteration order of the target collection (when \<^verbatim>\<open>on_failed\<close> is set).
\<close>

theorem run_result_order:
  assumes "wf_hosts (session_hosts self h)"
    and "run spec_scheduler self task num_workers_opt raise_on_error_opt on_good on_failed h =
           (Inr agg, h')"
  shows "map fst agg = map name (session_run_on self on_good on_failed h) \<and>
         length agg = length (session_run_on self on_good on_failed h) \<and>
         distinct (map fst agg) \<and>
         map fst agg =
           (if on_good
            then filter (\<lambda>n. n \<notin> session_failed_hosts self h) (map fst (session_hosts self h))
            else []) @
           (if on_failed
            then filter (\<lambda>n. n \<in> session_failed_hosts self h) (map fst (session_hosts self h))
            else [])"
proof -
  let ?res = "fst (scheduled spec_scheduler self task num_workers_opt on_good on_failed h)"
  have "fst (run spec_scheduler self task num_workers_opt raise_on_error_opt on_good on_failed h) =
          Inr ?res \<or>
        fst (run spec_scheduler self task num_workers_opt raise_on_error_opt on_good on_failed h) =
          Inl (NornirExecutionError ?res)"
    by (cases "effective_raise_on_error raise_on_error_opt (config (nornirs h ! self))")
       (simp_all add: run_raising run_not_raising)
  with assms(2) have agg: "agg = ?res"
    by simp
  from assms(1) have keys: "map fst agg = map name (session_run_on self on_good on_failed h)"
    unfolding agg by (rule spec_scheduled_keys)
  then have "length (map fst agg) = length (map name (session_run_on self on_good on_failed h))"
    by simp
  then have len: "length agg = length (session_run_on self on_good on_failed h)"
    by simp
  have dist: "distinct (map fst agg)"
    unfolding keys session_run_on_def using assms(1) by (rule distinct_names_run_on)
  have order: "map name (session_run_on self on_good on_failed h) =
           (if on_good
            then filter (\<lambda>n. n \<notin> session_failed_hosts self h) (map fst (session_hosts self h))
            else []) @
           (if on_failed
            then filter (\<lambda>n. n \<in> session_failed_hosts self h) (map fst (session_hosts self h))
            else [])"
    unfolding session_run_on_def using assms(1) by (rule names_run_on)
  from keys len dist order show ?thesis
    by simp
qed

theorem run_result_order_witness:
  "wf_hosts (session_hosts 0 abc_B) \<and>
   fst (run spec_scheduler 0 succeeds None (Some False) True True abc_B) =
     Inr [(''A'', \<lparr>host = ''A'', result = Some ''done'', exception = None, changed = False\<rparr>),
          (''C'', \<lparr>host = ''C'', result = Some ''done'', exception = None, changed = False\<rparr>),
          (''B'', \<lparr>host = ''B'', result = Some ''done'', exception = None, changed = False\<rparr>)] \<and>
   map name (session_run_on 0 True True abc_B) = [''A'', ''C'', ''B'']"
proof -
  let ?agg = "[(''A'', \<lparr>host = ''A'', result = Some ''done'', exception = None, changed = False\<rparr>),
          (''C'', \<lparr>host = ''C'', result = Some ''done'', exception = None, changed = False\<rparr>),
          (''B'', \<lparr>host = ''B'', result = Some ''done'', exception = None, changed = False\<rparr>)]"
  have r: "run spec_scheduler 0 succeeds None (Some False) True True abc_B =
             (Inr ?agg, snd (run spec_scheduler 0 succeeds None (Some False) True True abc_B))"
    using abc_B_retry_succeeds by (simp add: prod_eq_iff)
  from run_result_order [OF abc_B_wf r]
  have "map name (session_run_on 0 True True abc_B) = [''A'', ''C'', ''B'']"
    by simp
  with abc_B_wf abc_B_retry_succeeds show ?thesis
    by simp
qed

section \<open>What filter changes\<close>

lemma update_dry_run_same: "xs[i := (xs ! i)\<lparr>dry_run := dry_run (xs ! i)\<rparr>] = xs"
  by (simp add: list_update_same_conv)

lemma filter_nornir_eq:
  assumes "self < length (nornirs h)"
  shows "filter_nornir default_config registry self criteria h =
           (length (nornirs h),
            h\<lparr>inventories :=
                 (inventories h)[inventory (nornirs h ! self) :=
                    (inventories h ! inventory (nornirs h ! self))
                      \<lparr>nornir := Some (length (nornirs h))\<rparr>] @
                 [\<lparr>hosts = filter (\<lambda>item. list_all (matches (snd item)) criteria)
                             (hosts ((inventories h)[inventory (nornirs h ! self) :=
                                (inventories h ! inventory (nornirs h ! self))
                                  \<lparr>nornir := Some (length (nornirs h))\<rparr>]
                               ! inventory (nornirs h ! self))),
                   nornir = nornir ((inventories h)[inventory (nornirs h ! self) :=
                                (inventories h ! inventory (nornirs h ! self))
                                  \<lparr>nornir := Some (length (nornirs h))\<rparr>]
                               ! inventory (nornirs h ! self))\<rparr>],
               nornirs := nornirs h @
                 [\<lparr>logger = logger (nornirs h ! self), data = data (nornirs h ! self),
                   inventory = length (inventories h), config = config (nornirs h ! self)\<rparr>]\<rparr>)"
  using assms
  by (simp add: filter_nornir_def init_def inventory_filter_def Let_def nth_append
      update_dry_run_same)

lemma filter_nornir_fst:
  "fst (filter_nornir default_config registry self criteria h) = length (nornirs h)"
  by (simp add: filter_nornir_def init_def inventory_filter_def Let_def split: prod.splits)

lemma filter_nornir_nornirs:
  "i < length (nornirs h) \<Longrightarrow>
   nornirs (snd (filter_nornir default_config registry self criteria h)) ! i = nornirs h ! i"
  by (simp add: filter_nornir_def init_def inventory_filter_def Let_def nth_append
      split: prod.splits)

lemma filter_nornir_length_nornirs:
  "length (nornirs (snd (filter_nornir default_config registry self criteria h))) =
     Suc (length (nornirs h))"
  by (simp add: filter_nornir_def init_def inventory_filter_def Let_def split: prod.splits)

lemma filter_nornir_length_inventories:
  "length (inventories (snd (filter_nornir default_config registry self criteria h))) =
     Suc (length (inventories h))"
  by (simp add: filter_nornir_def init_def inventory_filter_def Let_def split: prod.splits)

lemma filter_nornir_length_datas:
  "length (datas (snd (filter_nornir default_config registry self criteria h))) =
     length (datas h)"
  by (simp add: filter_nornir_def init_def inventory_filter_def Let_def split: prod.splits)

lemma hosts_nornir_update: "hosts (xs[j := (xs ! j)\<lparr>nornir := r\<rparr>] ! i) = hosts (xs ! i)"
proof (cases "j < length xs")
  case True
  then show ?thesis
    by (cases "i = j") simp_all
next
  case False
  then have "xs[j := (xs ! j)\<lparr>nornir := r\<rparr>] = xs"
    by (simp add: list_update_beyond)
  then show ?thesis
    by simp
qed

lemma filter_nornir_hosts:
  "i < length (inventories h) \<Longrightarrow>
   hosts (inventories (snd (filter_nornir default_config registry self criteria h)) ! i) =
     hosts (inventories h ! i)"
  by (simp add: filter_nornir_def init_def inventory_filter_def Let_def nth_append
      hosts_nornir_update split: prod.splits)

lemma filter_nornir_valid:
  assumes "valid h s"
  shows "valid (snd (filter_nornir default_config registry self criteria h)) s"
  using assms
  by (simp add: valid_def filter_nornir_nornirs filter_nornir_length_nornirs
      filter_nornir_length_inventories filter_nornir_length_datas)

lemma filter_nornir_session_hosts:
  assumes "valid h s"
  shows "session_hosts s (snd (filter_nornir default_config registry self criteria h)) =
           session_hosts s h"
  using assms
  by (simp add: valid_def session_hosts_def filter_nornir_nornirs filter_nornir_hosts)

lemma filter_calls_session_hosts:
  "valid h s \<Longrightarrow> session_hosts s (filter_calls default_config registry cs h) = session_hosts s h"
proof (induction cs arbitrary: h)
  case Nil
  then show ?case by simp
next
  case (Cons c cs)
  let ?h = "snd (filter_nornir default_config registry (fst c) (snd c) h)"
  from Cons.prems have "valid ?h s"
    by (rule filter_nornir_valid)
  then have "session_hosts s (filter_calls default_config registry cs ?h) = session_hosts s ?h"
    by (rule Cons.IH)
  with Cons.prems show ?case
    by (simp add: filter_nornir_session_hosts)
qed

section \<open>C6: filter leaves the target collection of the parent alone\<close>

text \<open>
  Claim C6. After any number of filter calls, with any criteria, on this session or on any
  other one (its filtered copies among them), the target collection of the session is what it
  was before: the same targets under the same names in the same order, and so the same set
  and the same count.
\<close>

theorem filter_keeps_parent_hosts:
  assumes "valid h self"
  shows "session_hosts self (filter_calls default_config registry cs h) = session_hosts self h \<and>
         set (session_hosts self (filter_calls default_config registry cs h)) =
           set (session_hosts self h) \<and>
         length (session_hosts self (filter_calls default_config registry cs h)) =
           length (session_hosts self h)"
  using assms by (simp add: filter_calls_session_hosts)

lemma abc_filter_B:
  "filter_nornir abc_config [] 0 [Attribute ''name'' ''B''] abc =
     (1, abc\<lparr>inventories :=
               [\<lparr>hosts = [(''A'', device ''A''), (''B'', device ''B''), (''C'', device ''C'')],
                 nornir = Some 1\<rparr>,
                \<lparr>hosts = [(''B'', device ''B'')], nornir = Some 1\<rparr>],
             nornirs :=
               [\<lparr>logger = ''nornir'', data = 0, inventory = 0, config = abc_config\<rparr>,
                \<lparr>logger = ''nornir'', data = 0, inventory = 1, config = abc_config\<rparr>]\<rparr>)"
proof -
  have "0 < length (nornirs abc)"
    by (simp add: abc_def)
  then show ?thesis
    by (simp add: filter_nornir_eq) (simp add: abc_def device_def attribute_def)
qed

theorem filter_keeps_parent_hosts_witness:
  "valid abc 0 \<and>
   session_hosts 0 (filter_calls abc_config [] [(0, [Attribute ''name'' ''B''])] abc) =
     [(''A'', device ''A''), (''B'', device ''B''), (''C'', device ''C'')] \<and>
   session_hosts 1 (filter_calls abc_config [] [(0, [Attribute ''name'' ''B''])] abc) =
     [(''B'', device ''B'')]"
proof -
  have p: "session_hosts 0 abc = [(''A'', device ''A''), (''B'', device ''B''), (''C'', device ''C'')]"
    by (simp add: session_hosts_def abc_def)
  have c: "session_hosts 1 (filter_calls abc_config [] [(0, [Attribute ''name'' ''B''])] abc) =
             [(''B'', device ''B'')]"
    by (simp add: abc_filter_B session_hosts_def)
  from filter_keeps_parent_hosts [OF abc_valid, of abc_config "[]" "[(0, [Attribute ''name'' ''B''])]"]
    p c abc_valid
  show ?thesis
    by simp
qed

section \<open>C10: filter re-binds the inventory of the parent\<close>



section \<open>C4: a filtered session shares the state of its parent\<close>

lemma good_hosts_names:
  assumes "wf_hosts items" and "t \<in> set (run_on True False items fs)"
  shows "name t \<notin> fs"
proof -
  from assms(2) have "name t \<in> set (map name (run_on True False items fs))"
    by simp
  with assms(1) show ?thesis
    by (simp add: names_run_on)
qed

text \<open>
  Claim C4. The session that \<^verbatim>\<open>s.filter(...)\<close> returns holds the reference to the very
  shared-state object of \<^verbatim>\<open>s\<close>, and the call leaves that object as it was (the failed set
  and the dry-run flag with it). So after a run on the filtered session, both sessions see
  one and the same failed set; when the run does not raise, that set is the former one
  together with the names that failed in the run, and a later run of \<^verbatim>\<open>s\<close> on its good
  targets leaves those names out.
\<close>

theorem filter_shares_data:
  assumes "valid h self"
    and "wf_hosts (session_hosts self h)"
    and "filter_nornir default_config registry self criteria h = (b, h1)"
    and "run scheduler b task num_workers_opt raise_on_error_opt on_good on_failed h1 = (out, h2)"
    and "res = fst (scheduled scheduler b task num_workers_opt on_good on_failed h1)"
  shows "data (nornirs h1 ! b) = data (nornirs h1 ! self) \<and>
         data (nornirs h1 ! self) = data (nornirs h ! self) \<and>
         datas h1 = datas h \<and>
         session_failed_hosts self h2 = session_failed_hosts b h2 \<and>
         (\<not> effective_raise_on_error raise_on_error_opt (config (nornirs h1 ! b)) \<longrightarrow>
            session_failed_hosts self h2 =
              session_failed_hosts self h \<union> fst ` set (agg_failed_hosts res) \<and>
            (\<forall>t \<in> set (session_run_on self True False h2).
               name t \<notin> fst ` set (agg_failed_hosts res)))"
proof -
  from assms(1) have s: "self < length (nornirs h)"
    and d: "data (nornirs h ! self) < length (datas h)"
    by (simp_all add: valid_def)
  from assms(3) s have b: "b = length (nornirs h)"
    by (simp add: filter_nornir_eq)
  from assms(3) have h1: "h1 = snd (filter_nornir default_config registry self criteria h)"
    by simp
  from assms(4) have h2: "h2 = snd (run scheduler b task num_workers_opt raise_on_error_opt
                                      on_good on_failed h1)"
    by simp
  from s have same: "data (nornirs h1 ! b) = data (nornirs h1 ! self)"
    and parent: "data (nornirs h1 ! self) = data (nornirs h ! self)"
    and datas: "datas h1 = datas h"
    unfolding h1 b by (simp_all add: filter_nornir_eq nth_append)
  have n2: "nornirs h2 = nornirs h1"
    unfolding h2 by (rule run_nornirs)
  from same have seen: "session_failed_hosts self h2 = session_failed_hosts b h2"
    by (simp add: session_failed_hosts_def n2)
  have hosts2: "session_hosts self h2 = session_hosts self h"
  proof -
    have "session_hosts self h2 = session_hosts self h1"
      unfolding h2 by (simp add: session_hosts_def run_nornirs run_inventories)
    also from assms(1) have "\<dots> = session_hosts self h"
      unfolding h1 by (rule filter_nornir_session_hosts)
    finally show ?thesis .
  qed
  have recorded: "session_failed_hosts self h2 =
                    session_failed_hosts self h \<union> fst ` set (agg_failed_hosts res)"
    if quiet: "\<not> effective_raise_on_error raise_on_error_opt (config (nornirs h1 ! b))"
  proof -
    from d have "data (nornirs h1 ! b) < length (datas h1)"
      by (simp add: same parent datas)
    with quiet have "failed_hosts (datas h2 ! data (nornirs h1 ! b)) =
                       failed_hosts (datas h1 ! data (nornirs h1 ! b)) \<union>
                       fst ` set (agg_failed_hosts res)"
      unfolding h2 assms(5) by (rule run_not_raising_failed_hosts)
    then show ?thesis
      by (simp add: session_failed_hosts_def n2 same parent datas)
  qed
  have excluded: "name t \<notin> fst ` set (agg_failed_hosts res)"
    if quiet: "\<not> effective_raise_on_error raise_on_error_opt (config (nornirs h1 ! b))"
      and t: "t \<in> set (session_run_on self True False h2)" for t
  proof -
    from assms(2) have "wf_hosts (session_hosts self h2)"
      by (simp add: hosts2)
    moreover from t have "t \<in> set (run_on True False (session_hosts self h2)
                                    (session_failed_hosts self h2))"
      by (simp add: session_run_on_def)
    ultimately have "name t \<notin> session_failed_hosts self h2"
      by (rule good_hosts_names)
    with recorded [OF quiet] show ?thesis
      by simp
  qed
  from same parent datas seen recorded excluded show ?thesis
    by blast
qed

lemma abc_filtered_eq:
  "abc_filtered =
     abc\<lparr>inventories :=
           [\<lparr>hosts = [(''A'', device ''A''), (''B'', device ''B''), (''C'', device ''C'')],
             nornir = Some 1\<rparr>,
            \<lparr>hosts = [(''B'', device ''B'')], nornir = Some 1\<rparr>],
         nornirs :=
           [\<lparr>logger = ''nornir'', data = 0, inventory = 0, config = abc_config\<rparr>,
            \<lparr>logger = ''nornir'', data = 0, inventory = 1, config = abc_config\<rparr>]\<rparr>"
  by (simp add: abc_filtered_def abc_filter_B)

lemma abc_filtered_run_on: "session_run_on (Suc 0) True False abc_filtered = [device ''B'']"
  by (simp add: abc_filtered_eq session_run_on_def session_hosts_def session_failed_hosts_def
      run_on_def)
     (simp add: abc_def)

lemma abc_filtered_scheduled:
  "fst (scheduled spec_scheduler (Suc 0) fails_on_B nwo True False abc_filtered) =
     [(''B'', \<lparr>host = ''B'', result = Some ''KeyError'', exception = Some ''KeyError'',
               changed = False\<rparr>)]"
  by (simp add: spec_scheduled abc_filtered_run_on device_def fails_on_B_def make_result_def)

theorem filter_shares_data_witness:
  "valid abc 0 \<and> wf_hosts (session_hosts 0 abc) \<and>
   filter_nornir abc_config [] 0 [Attribute ''name'' ''B''] abc = (1, abc_filtered) \<and>
   data (nornirs abc_filtered ! 1) = data (nornirs abc_filtered ! 0) \<and>
   session_failed_hosts 0 abc = {} \<and>
   session_failed_hosts 0 (snd (run spec_scheduler 1 fails_on_B None None True False abc_filtered)) =
     {''B''}"
proof -
  let ?h2 = "snd (run spec_scheduler 1 fails_on_B None None True False abc_filtered)"
  let ?res = "fst (scheduled spec_scheduler 1 fails_on_B None True False abc_filtered)"
  have f: "filter_nornir abc_config [] 0 [Attribute ''name'' ''B''] abc = (1, abc_filtered)"
    by (simp add: abc_filter_B abc_filtered_eq)
  have q: "\<not> effective_raise_on_error None (config (nornirs abc_filtered ! 1))"
    by (simp add: abc_filtered_eq effective_raise_on_error_def abc_config_def)
  have e: "session_failed_hosts 0 abc = {}"
    by (simp add: session_failed_hosts_def abc_def)
  have r: "fst ` set (agg_failed_hosts ?res) = {''B''}"
    by (simp add: abc_filtered_scheduled agg_failed_hosts_def failed_def)
  note t = filter_shares_data [OF abc_valid abc_wf f surjective_pairing refl,
      of spec_scheduler fails_on_B None None True False]
  from t have same: "data (nornirs abc_filtered ! 1) = data (nornirs abc_filtered ! 0)"
    by (rule conjunct1)
  from t q have "session_failed_hosts 0 ?h2 =
                   session_failed_hosts 0 abc \<union> fst ` set (agg_failed_hosts ?res)"
    by blast
  with e r have "session_failed_hosts 0 ?h2 = {''B''}"
    by simp
  with abc_valid abc_wf f same e show ?thesis
    by simp
qed

section \<open>What closing the connections changes\<close>

















section \<open>C8: leaving the scope closes the connections\<close>





end
